theory Spec2Isabelle
  imports Main
begin

section \<open>JavaScript strings\<close>

text \<open>
  A JavaScript string is a sequence of code units; it is modelled as a HOL \<open>string\<close>, one
  \<open>char\<close> per code unit (so the code units below 256). \<open>length\<close> is \<open>.length\<close>,
  \<open>take n\<close> is \<open>.substring(0, n)\<close>, \<open>drop n\<close> is \<open>.substring(n)\<close> and \<open>@\<close> is \<open>+\<close>.
  The other built-ins the program calls are written out below.
\<close>

abbreviation nl :: char where
  "nl \<equiv> CHR 0x0A"

abbreviation backtick :: char where
  "backtick \<equiv> CHR 0x60"

abbreviation dquote :: char where
  "dquote \<equiv> CHR 0x22"

text \<open>\<open>s.startsWith(p)\<close>\<close>

definition startsWith :: "string \<Rightarrow> string \<Rightarrow> bool" where
  "startsWith s p = (take (length p) s = p)"

text \<open>\<open>s.includes(sub)\<close>: \<open>sub\<close> occurs at some position of \<open>s\<close>.\<close>

fun str_includes :: "string \<Rightarrow> string \<Rightarrow> bool" where
  "str_includes [] sub = (sub = [])"
| "str_includes (c # cs) sub = (startsWith (c # cs) sub \<or> str_includes cs sub)"

text \<open>\<open>s.toLowerCase()\<close>, on code units below 256: A-Z and the accented capitals
  0xC0-0xDE (but not the multiplication sign 0xD7) move up by 32.\<close>

definition toLowerChar :: "char \<Rightarrow> char" where
  "toLowerChar c =
     (let n = (of_char c :: nat)
      in if (65 \<le> n \<and> n \<le> 90) \<or> (192 \<le> n \<and> n \<le> 222 \<and> n \<noteq> 215)
         then char_of (n + 32) else c)"

definition toLowerCase :: "string \<Rightarrow> string" where
  "toLowerCase s = map toLowerChar s"

text \<open>\<open>s.trim()\<close>: white space and line terminators go from both ends (tab, line feed,
  vertical tab, form feed, carriage return, space, no-break space).\<close>

definition isWhiteSpace :: "char \<Rightarrow> bool" where
  "isWhiteSpace c = ((of_char c :: nat) \<in> {9, 10, 11, 12, 13, 32, 160})"

definition trim :: "string \<Rightarrow> string" where
  "trim s = rev (dropWhile isWhiteSpace (rev (dropWhile isWhiteSpace s)))"

text \<open>\<open>s.split('\n\n')\<close>: the pieces between the occurrences of two line feeds, found
  from the left without overlap; a string with no occurrence is its own single piece.\<close>

fun split_blank :: "string \<Rightarrow> string list" where
  "split_blank [] = [[]]"
| "split_blank [c] = [[c]]"
| "split_blank (c # d # cs) =
     (if c = nl \<and> d = nl then [] # split_blank cs
      else (case split_blank (d # cs) of
              e # es \<Rightarrow> (c # e) # es
            | [] \<Rightarrow> [[c]]))"

text \<open>\<open>xs.join(sep)\<close>\<close>

fun join :: "string \<Rightarrow> string list \<Rightarrow> string" where
  "join sep [] = []"
| "join sep [x] = x"
| "join sep (x # y # ys) = x @ sep @ join sep (y # ys)"

text \<open>A non-negative integer in a template or a string concatenation: its decimal digits.\<close>

definition digitChar :: "nat \<Rightarrow> char" where
  "digitChar d = char_of (48 + d)"

fun showNat :: "nat \<Rightarrow> string" where
  "showNat n = (if n < 10 then [digitChar n] else showNat (n div 10) @ [digitChar (n mod 10)])"

declare showNat.simps [simp del]

text \<open>\<open>s.lastIndexOf(sub, from)\<close>: the largest index \<open>i \<le> from\<close> at which \<open>sub\<close> starts
  in \<open>s\<close>, or -1. The search starts at \<open>min from (length s - length sub)\<close>.\<close>

fun lastIndexFrom :: "string \<Rightarrow> string \<Rightarrow> nat \<Rightarrow> int" where
  "lastIndexFrom s sub 0 = (if startsWith s sub then 0 else -1)"
| "lastIndexFrom s sub (Suc i) =
     (if startsWith (drop (Suc i) s) sub then int (Suc i) else lastIndexFrom s sub i)"

definition lastIndexOf :: "string \<Rightarrow> string \<Rightarrow> nat \<Rightarrow> int" where
  "lastIndexOf s sub from =
     (if length s < length sub then -1
      else lastIndexFrom s sub (min from (length s - length sub)))"

section \<open>Request shaping\<close>

text \<open>The body of the POST to \<open>/chat/completions\<close>: \<open>messages\<close> are (role, content) pairs.\<close>

record chatRequest =
  model :: string
  messages :: "(string \<times> string) list"
  stream :: bool
  max_tokens :: nat

definition systemMessage :: string where
  "systemMessage = ''You are an expert software engineer analyzing code repositories. Provide detailed, accurate insights about the codebase. Include specific details from the context. If information is available in the context, focus on that rather than making general statements. For repository overviews, explain the main purpose, key components, and architecture.''"

definition elaboration :: string where
  "elaboration = '' - Please provide detailed information about the repository'' @ [CHR 0x27] @ ''s purpose, architecture, and key components.''"

definition enhancedQuery :: "string \<Rightarrow> string" where
  "enhancedQuery query =
     (if str_includes (toLowerCase query) ''repo'' \<or>
         str_includes (toLowerCase query) ''repository'' \<or>
         str_includes (toLowerCase query) ''what'' \<or>
         str_includes (toLowerCase query) ''how''
      then query @ elaboration
      else query)"

definition requestBody :: "string \<Rightarrow> chatRequest" where
  "requestBody query =
     \<lparr>model = ''gpt-4o'',
      messages = [(''system'', systemMessage), (''user'', enhancedQuery query)],
      stream = True,
      max_tokens = 1000\<rparr>"


section \<open>The result of a fetch and the reply of the tool\<close>

text \<open>\<open>{ content: string; sources?: string[]; statusCode?: number }\<close>; an optional field
  that is absent is \<open>None\<close>.\<close>

record fetchResult =
  content :: string
  sources :: "string list option"
  statusCode :: "nat option"

definition maxResponseLength :: nat where
  "maxResponseLength = 10000"

definition trimNote :: "string \<Rightarrow> string" where
  "trimNote c = [nl, nl] @ ''[Content trimmed for display. The original response was '' @
     showNat (length c) @ '' characters long.]''"

text \<open>The handler's \<open>trimmedContent\<close>; \<open>maxResponseLength * 0.75\<close> is 7500.\<close>

definition trimmedContent :: "string \<Rightarrow> string" where
  "trimmedContent c =
     (if length c > maxResponseLength then
        (let breakPoint = lastIndexOf c [nl, nl] maxResponseLength
         in if breakPoint > 7500
            then take (nat breakPoint) c @ trimNote c
            else take maxResponseLength c @ ''...'' @ trimNote c)
      else c)"

definition sourcesSection :: "string list option \<Rightarrow> string" where
  "sourcesSection ss =
     (case ss of
        None \<Rightarrow> []
      | Some xs \<Rightarrow>
          if length xs > 0
          then [nl, nl] @ ''Sources:'' @ [nl] @ join [nl] (map (\<lambda>src. ''- '' @ src) xs)
          else [])"

definition failedReply :: string where
  "failedReply = ''Failed to retrieve context from Nia API''"

definition authReply :: string where
  "authReply = ''Authentication error. Please make sure you'' @ [CHR 0x27] @ ''re using a valid API key from your Nia account.''"

definition quotaReply :: string where
  "quotaReply = ''Error, you have exceeded your quota. Please upgrade to a Pro plan for unlimited usage.''"

text \<open>
  The text the \<open>lookup_codebase_context\<close> handler replies with, given what
  \<open>fetchContextFromNia\<close> resolved to (\<open>None\<close> is \<open>null\<close>). The tests are the handler's, in
  its order; \<open>if (result.statusCode)\<close> is false for an absent code and for 0.
\<close>

definition lookup_codebase_context :: "string \<Rightarrow> fetchResult option \<Rightarrow> string" where
  "lookup_codebase_context user_query result =
     (case result of
        None \<Rightarrow> failedReply
      | Some r \<Rightarrow>
          if statusCode r = Some 403 \<or> statusCode r = Some 401 then authReply
          else if statusCode r = Some 402 then quotaReply
          else (case statusCode r of
                  Some (Suc k) \<Rightarrow>
                    ''Failed to retrieve context from Nia API: HTTP error '' @ showNat (Suc k)
                | _ \<Rightarrow>
                    ''Context for '' @ [dquote] @ user_query @ [dquote] @ '':'' @ [nl, nl] @
                    trimmedContent (content r) @ sourcesSection (sources r)))"

section \<open>JSON values\<close>

text \<open>
  What \<open>JSON.parse\<close> gives. A number is held as its JavaScript rendering (what
  concatenating it to a string appends), so zero is \<open>JNum ''0''\<close>. An object is the list of
  its own properties; the first pair with a key is the property.
  \<open>JSON.parse\<close> itself belongs to the runtime: the functions below take it as the parameter
  \<open>P\<close>, with \<open>None\<close> for a \<open>SyntaxError\<close>.
\<close>

datatype json =
    JNull
  | JBool bool
  | JNum string
  | JStr string
  | JArr "json list"
  | JObj "(string \<times> json) list"

type_synonym parser = "string \<Rightarrow> json option"

text \<open>Truthiness of a parsed value; \<open>undefined\<close> is \<open>None\<close>.\<close>

fun truthy :: "json \<Rightarrow> bool" where
  "truthy JNull = False"
| "truthy (JBool b) = b"
| "truthy (JNum s) = (s \<noteq> ''0'')"
| "truthy (JStr s) = (s \<noteq> [])"
| "truthy (JArr xs) = True"
| "truthy (JObj kvs) = True"

fun truthyOpt :: "json option \<Rightarrow> bool" where
  "truthyOpt None = False"
| "truthyOpt (Some v) = truthy v"

text \<open>\<open>v.k\<close> for a value that is not \<open>null\<close> and a key \<open>k\<close> that is a plain name
  (\<open>choices\<close>, \<open>delta\<close>, \<open>message\<close>, \<open>content\<close>): only an object has such a property.\<close>

fun getProp :: "json \<Rightarrow> string \<Rightarrow> json option" where
  "getProp (JObj kvs) k = map_of kvs k"
| "getProp v k = None"

text \<open>\<open>v[0]\<close> for a value that is not \<open>null\<close>: the first element of an array, the
  property \<open>0\<close> of an object, the first code unit of a string.\<close>

fun elem0 :: "json \<Rightarrow> json option" where
  "elem0 (JArr xs) = (case xs of [] \<Rightarrow> None | x # _ \<Rightarrow> Some x)"
| "elem0 (JObj kvs) = map_of kvs ''0''"
| "elem0 (JStr s) = (case s of [] \<Rightarrow> None | c # _ \<Rightarrow> Some (JStr [c]))"
| "elem0 v = None"

text \<open>Optional chaining \<open>a?.b\<close>: \<open>undefined\<close> when \<open>a\<close> is \<open>null\<close> or \<open>undefined\<close>.\<close>

fun chain :: "(json \<Rightarrow> json option) \<Rightarrow> json option \<Rightarrow> json option" where
  "chain f None = None"
| "chain f (Some JNull) = None"
| "chain f (Some v) = f v"

text \<open>
  What \<open>fullContent += v\<close> appends: the string conversion of \<open>v\<close>. An array joins its
  elements with commas, \<open>null\<close> elements as the empty string; an object is
  \<open>[object Object]\<close>, unless it has a property \<open>toString\<close> of its own (no JSON value can be
  called), where the conversion throws a \<open>TypeError\<close>: \<open>None\<close>.
\<close>

fun toStr :: "json \<Rightarrow> string option" where
  "toStr JNull = Some ''null''"
| "toStr (JBool b) = Some (if b then ''true'' else ''false'')"
| "toStr (JNum s) = Some s"
| "toStr (JStr s) = Some s"
| "toStr (JArr xs) =
     map_option (join '','') (those (map (\<lambda>x. if x = JNull then Some [] else toStr x) xs))"
| "toStr (JObj kvs) =
     (if ''toString'' \<in> fst ` set kvs then None else Some ''[object Object]'')"

section \<open>Reconstruction of a streamed answer\<close>

text \<open>The three places an event can carry text, as the handler probes them.\<close>

definition deltaContent :: "json \<Rightarrow> json option" where
  "deltaContent jsonObj =
     chain (\<lambda>v. getProp v ''content'') (chain (\<lambda>v. getProp v ''delta'')
       (chain elem0 (getProp jsonObj ''choices'')))"

definition messageContent :: "json \<Rightarrow> json option" where
  "messageContent jsonObj =
     chain (\<lambda>v. getProp v ''content'') (chain (\<lambda>v. getProp v ''message'')
       (chain elem0 (getProp jsonObj ''choices'')))"

definition rawContent :: "json \<Rightarrow> json option" where
  "rawContent jsonObj = getProp jsonObj ''content''"

text \<open>\<open>fullContent += v\<close>; \<open>None\<close> when the conversion throws.\<close>

definition plusAssign :: "string \<Rightarrow> json option \<Rightarrow> string option" where
  "plusAssign fullContent v =
     (case v of
        None \<Rightarrow> Some (fullContent @ ''undefined'')
      | Some j \<Rightarrow> map_option (\<lambda>t. fullContent @ t) (toStr j))"

text \<open>
  The if / else-if chain on a parsed event; \<open>None\<close> when it throws (reading \<open>choices\<close> of
  \<open>null\<close>, or a conversion that throws), which the \<open>catch\<close> of the event swallows.
\<close>

definition appendEvent :: "json \<Rightarrow> string \<Rightarrow> string option" where
  "appendEvent jsonObj fullContent =
     (if jsonObj = JNull then None
      else if truthyOpt (deltaContent jsonObj) then plusAssign fullContent (deltaContent jsonObj)
      else if truthyOpt (messageContent jsonObj) then plusAssign fullContent (messageContent jsonObj)
      else if truthyOpt (rawContent jsonObj) then plusAssign fullContent (rawContent jsonObj)
      else Some fullContent)"

text \<open>The loop over the events, \<open>fullContent\<close> as the accumulator.\<close>

fun sseLoop :: "parser \<Rightarrow> string list \<Rightarrow> string \<Rightarrow> string" where
  "sseLoop P [] fullContent = fullContent"
| "sseLoop P (event # events) fullContent =
     (if trim event = [] then sseLoop P events fullContent
      else if str_includes event ''data: [DONE]'' then sseLoop P events fullContent
      else if startsWith event ''data: '' then
        (let jsonStr = trim (drop 6 event)
         in if jsonStr = [] then sseLoop P events fullContent
            else (case P jsonStr of
                    None \<Rightarrow> sseLoop P events fullContent
                  | Some jsonObj \<Rightarrow>
                      (case appendEvent jsonObj fullContent of
                         None \<Rightarrow> sseLoop P events fullContent
                       | Some fullContent' \<Rightarrow> sseLoop P events fullContent')))
      else sseLoop P events fullContent)"

section \<open>Extraction of the sources\<close>

text \<open>
  The regular expression \<open>- `([^`]+)`\<close> tried at the start of \<open>s\<close>: the captured identifier
  and what follows the match. The identifier is the run of characters up to the next
  backtick; it must not be empty and the backtick must be there.
\<close>

definition matchEntry :: "string \<Rightarrow> (string \<times> string) option" where
  "matchEntry s =
     (if startsWith s ''- `'' then
        (let ident = takeWhile (\<lambda>c. c \<noteq> backtick) (drop 3 s);
             rest = dropWhile (\<lambda>c. c \<noteq> backtick) (drop 3 s)
         in if ident \<noteq> [] \<and> rest \<noteq> [] then Some (ident, tl rest) else None)
      else None)"

text \<open>One round of the group \<open>(?:- `[^`]+`\n?)\<close> at the start of \<open>s\<close>: what follows it.\<close>

definition matchItem :: "string \<Rightarrow> string option" where
  "matchItem s =
     (case matchEntry s of
        None \<Rightarrow> None
      | Some (ident, rest) \<Rightarrow> Some (if startsWith rest [nl] then tl rest else rest))"

text \<open>The greedy repetition \<open>(...)+\<close>: what follows the last round that matches.\<close>

function matchItems :: "string \<Rightarrow> string" where
  "matchItems s = (case matchItem s of None \<Rightarrow> s | Some rest \<Rightarrow> matchItems rest)"
  by pat_completeness auto
termination
proof (relation "measure length")
  fix s rest
  assume a: "matchItem s = Some rest"
  let ?d = "dropWhile (\<lambda>c. c \<noteq> backtick) (drop 3 s)"
  from a obtain ident r where e: "matchEntry s = Some (ident, r)"
    and r: "rest = (if startsWith r [nl] then tl r else r)"
    by (auto simp: matchItem_def split: option.splits)
  from e have "r = tl ?d" and "?d \<noteq> []"
    by (auto simp: matchEntry_def Let_def split: if_splits)
  moreover have "length ?d \<le> length (drop 3 s)"
    by (rule length_dropWhile_le)
  ultimately have "length r < length s"
    by (cases ?d) auto
  moreover have "length rest \<le> length r"
    using r by auto
  ultimately show "(rest, s) \<in> measure length"
    by simp
qed simp

declare matchItems.simps [simp del]

definition sourcesHeader :: string where
  "sourcesHeader = ''**Sources:**'' @ [nl]"

text \<open>
  \<open>content.match(/\*\*Sources:\*\*\n((?:- `[^`]+`\n?)+)/)\<close>: the first position where the
  header stands with at least one round of the group after it; the result is the text of
  group 1, the rounds matched there, or \<open>None\<close> for \<open>null\<close>.
\<close>

fun sourceMatch :: "string \<Rightarrow> string option" where
  "sourceMatch [] = None"
| "sourceMatch (c # cs) =
     (if startsWith (c # cs) sourcesHeader \<and> matchItem (drop 13 (c # cs)) \<noteq> None
      then Some (take (length (drop 13 (c # cs)) - length (matchItems (drop 13 (c # cs))))
                   (drop 13 (c # cs)))
      else sourceMatch cs)"

text \<open>
  The loop \<open>while ((match = sourceRegex.exec(sourceText)) !== null) sources.push(match[1])\<close>
  with the global expression \<open>- `([^`]+)`\<close>: each search starts where the last match ended
  and takes the first position that matches.
\<close>

function sourceRegex_exec :: "string \<Rightarrow> string list" where
  "sourceRegex_exec s =
     (case matchEntry s of
        Some (ident, rest) \<Rightarrow> ident # sourceRegex_exec rest
      | None \<Rightarrow> (if s = [] then [] else sourceRegex_exec (tl s)))"
  by pat_completeness auto
termination
proof (relation "measure length")
  fix s x ident rest
  assume e: "matchEntry s = Some x" and x: "(ident, rest) = x"
  let ?d = "dropWhile (\<lambda>c. c \<noteq> backtick) (drop 3 s)"
  from e x have "rest = tl ?d" and "?d \<noteq> []"
    by (auto simp: matchEntry_def Let_def split: if_splits)
  moreover have "length ?d \<le> length (drop 3 s)"
    by (rule length_dropWhile_le)
  ultimately have "length rest < length s"
    by (cases ?d) auto
  then show "(rest, s) \<in> measure length"
    by simp
next
  fix s :: string
  assume "s \<noteq> []"
  then show "(tl s, s) \<in> measure length"
    by (cases s) auto
qed simp

declare sourceRegex_exec.simps [simp del]

definition extractSources :: "string \<Rightarrow> string list" where
  "extractSources fullContent =
     (case sourceMatch fullContent of
        None \<Rightarrow> []
      | Some sourceText \<Rightarrow> sourceRegex_exec sourceText)"

text \<open>What the stream branch returns for the body \<open>textResponse\<close>.\<close>

definition sseResult :: "parser \<Rightarrow> string \<Rightarrow> fetchResult" where
  "sseResult P textResponse =
     (let fullContent = sseLoop P (split_blank textResponse) []
      in \<lparr>content = fullContent, sources = Some (extractSources fullContent), statusCode = None\<rparr>)"

section \<open>The upstream call\<close>

text \<open>An \<open>Error\<close> that is thrown or that a promise rejects with: its \<open>name\<close> and \<open>message\<close>.\<close>

record jsError =
  error_name :: string
  error_message :: string

text \<open>
  A response of \<open>fetch\<close>: the status, the \<open>content-type\<close> header (\<open>None\<close> when it is
  missing) and the body. A response can have no body at all (status 204 or 205): \<open>None\<close>.
  Otherwise \<open>bodyText\<close> holds what reading the body to its end gives, the text or the error
  the read rejects with. \<open>response.ok\<close> is a status from 200 to 299.
\<close>

record response =
  status :: nat
  contentType :: "string option"
  bodyText :: "(jsError + string) option"

definition ok :: "response \<Rightarrow> bool" where
  "ok r = (200 \<le> status r \<and> status r \<le> 299)"

text \<open>
  The body of a response is read once: \<open>response.json()\<close> and \<open>response.text()\<close> both
  consume it, and a second read rejects with a \<open>TypeError\<close>. The flag \<open>used\<close> says whether
  the body has been read; each read returns the flag set. A response without a body has
  nothing to consume: every read of it gives the empty text, which \<open>json()\<close> then parses,
  and the flag stays as it is.
\<close>

text \<open>The errors thrown here are all instances of \<open>Error\<close>. Of their messages only the
  one of \<open>bodyUnusable\<close> is ever looked at, by \<open>isTimeout\<close>; the runtimes word it
  differently, none with \<open>timeout\<close> or \<open>abort\<close> in it.\<close>

definition bodyUnusable :: jsError where
  "bodyUnusable =
     \<lparr>error_name = ''TypeError'', error_message = ''Body is unusable: Body has already been read''\<rparr>"

definition syntaxError :: jsError where
  "syntaxError = \<lparr>error_name = ''SyntaxError'', error_message = ''Unexpected token in JSON''\<rparr>"

definition typeError :: jsError where
  "typeError =
     \<lparr>error_name = ''TypeError'', error_message = ''content.match is not a function''\<rparr>"

definition response_text :: "response \<Rightarrow> bool \<Rightarrow> (jsError + string) \<times> bool" where
  "response_text r used =
     (case bodyText r of
        None \<Rightarrow> (Inr [], used)
      | Some b \<Rightarrow> (if used then Inl bodyUnusable else b, True))"

definition response_json :: "parser \<Rightarrow> response \<Rightarrow> bool \<Rightarrow> (jsError + json) \<times> bool" where
  "response_json P r used =
     (case bodyText r of
        None \<Rightarrow> ((case P [] of None \<Rightarrow> Inl syntaxError | Some j \<Rightarrow> Inr j), used)
      | Some b \<Rightarrow>
          (if used then Inl bodyUnusable
           else (case b of
                   Inl e \<Rightarrow> Inl e
                 | Inr t \<Rightarrow> (case P t of None \<Rightarrow> Inl syntaxError | Some j \<Rightarrow> Inr j)),
           True))"

text \<open>\<open>contentType && contentType.includes('text/event-stream')\<close>\<close>

definition isEventStream :: "string option \<Rightarrow> bool" where
  "isEventStream ct =
     (case ct of None \<Rightarrow> False | Some t \<Rightarrow> t \<noteq> [] \<and> str_includes t ''text/event-stream'')"

definition invalidFormat :: fetchResult where
  "invalidFormat =
     \<lparr>content = ''Error: Invalid response format from API'', sources = None,
      statusCode = Some 500\<rparr>"

text \<open>
  The JSON branch once \<open>data\<close> is parsed: the shape test, then \<open>content.match(...)\<close>, which
  throws a \<open>TypeError\<close> unless \<open>content\<close> is a string.
\<close>

definition jsonResult :: "json \<Rightarrow> jsError + fetchResult" where
  "jsonResult data =
     (if \<not> truthy data \<or> \<not> truthyOpt (getProp data ''choices'') \<or>
         \<not> truthyOpt (chain elem0 (getProp data ''choices'')) \<or>
         \<not> truthyOpt (chain (\<lambda>v. getProp v ''message'') (chain elem0 (getProp data ''choices'')))
      then Inr invalidFormat
      else (case chain (\<lambda>v. getProp v ''content'')
                  (chain (\<lambda>v. getProp v ''message'') (chain elem0 (getProp data ''choices''))) of
              Some (JStr c) \<Rightarrow>
                Inr \<lparr>content = c, sources = Some (extractSources c), statusCode = None\<rparr>
            | _ \<Rightarrow> Inl typeError))"

text \<open>
  The inner \<open>try\<close> once \<open>fetch\<close> has resolved with \<open>r\<close>: \<open>Inr\<close> is a \<open>return\<close>, \<open>Inl\<close> an
  error that leaves the block for the outer \<open>catch\<close>. In the JSON branch whatever the
  \<open>try\<close> throws goes to \<open>catch (jsonError)\<close>, which reads the body again as text.
\<close>

definition processResponse :: "parser \<Rightarrow> response \<Rightarrow> jsError + fetchResult" where
  "processResponse P r =
     (if \<not> ok r then Inr \<lparr>content = [], sources = None, statusCode = Some (status r)\<rparr>
      else if isEventStream (contentType r) then
        (case fst (response_text r False) of
           Inl e \<Rightarrow> Inl e
         | Inr textResponse \<Rightarrow> Inr (sseResult P textResponse))
      else
        (case response_json P r False of
           (Inr data, used) \<Rightarrow>
             (case jsonResult data of
                Inr res \<Rightarrow> Inr res
              | Inl jsonError \<Rightarrow>
                  (case fst (response_text r used) of
                     Inl e \<Rightarrow> Inl e
                   | Inr textResponse \<Rightarrow>
                       Inr \<lparr>content = take 2000 textResponse, sources = Some [],
                            statusCode = None\<rparr>))
         | (Inl jsonError, used) \<Rightarrow>
             (case fst (response_text r used) of
                Inl e \<Rightarrow> Inl e
              | Inr textResponse \<Rightarrow>
                  Inr \<lparr>content = take 2000 textResponse, sources = Some [],
                       statusCode = None\<rparr>)))"

text \<open>What one call of \<open>fetch\<close> ends in: a rejection, or a response.\<close>

datatype attempt = Rejected jsError | Responded response

record httpRequest =
  url :: string
  headers :: "(string \<times> string) list"
  body :: chatRequest

definition niaRequest :: "string \<Rightarrow> string \<Rightarrow> httpRequest" where
  "niaRequest query apiKey =
     \<lparr>url = ''https://api.trynia.ai/chat/completions'',
      headers = [(''User-Agent'', ''nia-mcp/1.0''), (''Content-Type'', ''application/json''),
                 (''Authorization'', ''Bearer '' @ apiKey)],
      body = requestBody query\<rparr>"

text \<open>The network: what the \<open>k\<close>-th call of \<open>fetch\<close> (from 0) ends in for a request.\<close>

type_synonym network = "nat \<Rightarrow> httpRequest \<Rightarrow> attempt"

definition tryBlock :: "parser \<Rightarrow> attempt \<Rightarrow> jsError + fetchResult" where
  "tryBlock P a = (case a of Rejected e \<Rightarrow> Inl e | Responded r \<Rightarrow> processResponse P r)"

section \<open>The retry loop\<close>

definition maxRetries :: nat where
  "maxRetries = 3"

definition maxTimeoutRetries :: nat where
  "maxTimeoutRetries = 5"

text \<open>
  The variables of one call, with two logs beside them: \<open>waits\<close>, the backoff delays slept
  (in ms, in order), and \<open>calls\<close>, the number of calls of \<open>fetch\<close> made.
\<close>

record retryState =
  retryCount :: nat
  timeoutRetryCount :: nat
  lastError :: "jsError option"
  waits :: "nat list"
  calls :: nat

definition initialState :: retryState where
  "initialState =
     \<lparr>retryCount = 0, timeoutRetryCount = 0, lastError = None, waits = [], calls = 0\<rparr>"

definition isTimeout :: "jsError \<Rightarrow> bool" where
  "isTimeout e =
     (error_name e = ''TimeoutError'' \<or> error_name e = ''AbortError'' \<or>
      str_includes (error_message e) ''timeout'' \<or> str_includes (error_message e) ''abort'')"

text \<open>
  The outer \<open>catch\<close>: the new state, and whether the \<open>break\<close> at its end is taken. Both
  \<open>continue\<close> and reaching the end of the block go back to the loop's test.
\<close>

definition catchBlock :: "jsError \<Rightarrow> retryState \<Rightarrow> retryState \<times> bool" where
  "catchBlock e s =
     (if isTimeout e then
        (let s1 = s\<lparr>timeoutRetryCount := timeoutRetryCount s + 1\<rparr>
         in if timeoutRetryCount s1 < maxTimeoutRetries
            then (s1\<lparr>waits := waits s1 @ [1000 * timeoutRetryCount s1]\<rparr>, False)
            else (s1, retryCount s1 \<ge> maxRetries \<and> timeoutRetryCount s1 \<ge> maxTimeoutRetries))
      else
        (let s1 = s\<lparr>lastError := Some e, retryCount := retryCount s + 1\<rparr>;
             s2 = (if retryCount s1 < maxRetries
                   then s1\<lparr>waits := waits s1 @ [min (1000 * 2 ^ retryCount s1) 10000]\<rparr>
                   else s1)
         in (s2, retryCount s2 \<ge> maxRetries \<and> timeoutRetryCount s2 \<ge> maxTimeoutRetries)))"

text \<open>The code after the loop.\<close>

definition afterLoop :: "retryState \<Rightarrow> fetchResult" where
  "afterLoop s =
     (if timeoutRetryCount s \<ge> maxTimeoutRetries then
        \<lparr>content = ''Request timed out after '' @ showNat (timeoutRetryCount s) @
           '' attempts. The Nia API might be experiencing high load or the query is too complex.'',
         sources = None, statusCode = Some 408\<rparr>
      else
        \<lparr>content = ''Error communicating with Nia API after '' @ showNat (retryCount s) @
           '' attempts: '' @ (case lastError s of Some e \<Rightarrow> error_message e | None \<Rightarrow> ''null''),
         sources = None, statusCode = Some 500\<rparr>)"

text \<open>
  The \<open>while\<close> loop. Nothing bounds the number of its rounds, so the model runs it on fuel,
  one unit per round: \<open>None\<close> is a run that has not returned within the fuel. A returned
  value is the promise's value (\<open>Some\<close> of an object, \<open>None\<close> for \<open>null\<close>) with the final state.
\<close>

fun fetchLoop ::
  "nat \<Rightarrow> parser \<Rightarrow> network \<Rightarrow> string \<Rightarrow> string \<Rightarrow> retryState \<Rightarrow>
     (fetchResult option \<times> retryState) option" where
  "fetchLoop 0 P net query apiKey s = None"
| "fetchLoop (Suc fuel) P net query apiKey s =
     (if retryCount s < maxRetries \<or> timeoutRetryCount s < maxTimeoutRetries then
        (case tryBlock P (net (calls s) (niaRequest query apiKey)) of
           Inr res \<Rightarrow> Some (Some res, s\<lparr>calls := calls s + 1\<rparr>)
         | Inl e \<Rightarrow>
             (case catchBlock e (s\<lparr>calls := calls s + 1\<rparr>) of
                (s', True) \<Rightarrow> Some (Some (afterLoop s'), s')
              | (s', False) \<Rightarrow> fetchLoop fuel P net query apiKey s'))
      else Some (Some (afterLoop s), s))"

definition fetchContextFromNia ::
  "nat \<Rightarrow> parser \<Rightarrow> network \<Rightarrow> string \<Rightarrow> string \<Rightarrow>
     (fetchResult option \<times> retryState) option" where
  "fetchContextFromNia fuel P net query apiKey = fetchLoop fuel P net query apiKey initialState"

section \<open>The reconstruction, event by event\<close>




text \<open>One entry of a Sources section: a bullet, the identifier in backticks, a line feed.\<close>

definition sourceItem :: "string \<Rightarrow> string" where
  "sourceItem ident = ''- `'' @ ident @ ''`'' @ [nl]"

text \<open>A Sources section starts at position \<open>p\<close> of \<open>s\<close>: the header stands there, with an
  entry right after it. These are the positions where the expression of \<open>sourceMatch\<close>
  can match.\<close>

definition sectionAt :: "nat \<Rightarrow> string \<Rightarrow> bool" where
  "sectionAt p s = (startsWith (drop p s) sourcesHeader \<and> matchItem (drop (p + 13) s) \<noteq> None)"

definition timedOut :: "nat \<Rightarrow> fetchResult" where
  "timedOut n =
     \<lparr>content = ''Request timed out after '' @ showNat n @
        '' attempts. The Nia API might be experiencing high load or the query is too complex.'',
      sources = None, statusCode = Some 408\<rparr>"

section \<open>Sample documents\<close>

text \<open>
  JSON texts for the examples, and \<open>sampleParse\<close>: \<open>JSON.parse\<close> on these texts, with a
  \<open>SyntaxError\<close> for every other text. In a JSON text a line feed inside a string is the
  escape \<open>escNl\<close>, a backslash and the letter n.
\<close>

definition escNl :: string where
  "escNl = [CHR 0x5C, CHR ''n'']"

definition deltaDoc :: string where
  \<open>deltaDoc = ''{"choices":[{"delta":{"content":"Hel"}}]}''\<close>

definition messageDoc :: string where
  \<open>messageDoc = ''{"choices":[{"message":{"content":"lo, "}}]}''\<close>

definition rawDoc :: string where
  \<open>rawDoc = ''{"content":"world"}''\<close>

definition sourcesDoc :: string where
  \<open>sourcesDoc = ''{"content":"'' @ escNl @ escNl @ ''**Sources:**'' @ escNl @
     ''- `src/a.ts`'' @ escNl @ ''- `src/b.ts`'' @ escNl @ ''"}''\<close>

definition twoSectionsDoc :: string where
  \<open>twoSectionsDoc = ''{"content":"**Sources:**'' @ escNl @ ''- `x`'' @ escNl @ ''notes'' @ escNl @
     ''**Sources:**'' @ escNl @ ''- `a`'' @ escNl @ ''- `b`'' @ escNl @ ''"}''\<close>

definition completionDoc :: string where
  \<open>completionDoc = ''{"choices":[{"message":{"content":"Done.'' @ escNl @ ''**Sources:**'' @ escNl @
     ''- `a`'' @ escNl @ ''- `b`'' @ escNl @ ''"}}]}''\<close>

definition mentionDoc :: string where
  \<open>mentionDoc = ''{"content":"end with data: [DONE]"}''\<close>

definition nullContentDoc :: string where
  \<open>nullContentDoc = ''{"choices":[{"message":{"content":null}}]}''\<close>

definition sampleParse :: parser where
  "sampleParse = map_of
     [(''{}'', JObj []),
      (deltaDoc, JObj [(''choices'', JArr [JObj [(''delta'', JObj [(''content'', JStr ''Hel'')])]])]),
      (messageDoc,
         JObj [(''choices'', JArr [JObj [(''message'', JObj [(''content'', JStr ''lo, '')])]])]),
      (rawDoc, JObj [(''content'', JStr ''world'')]),
      (sourcesDoc,
         JObj [(''content'',
            JStr ([nl, nl] @ ''**Sources:**'' @ [nl] @ ''- `src/a.ts`'' @ [nl] @ ''- `src/b.ts`'' @ [nl]))]),
      (twoSectionsDoc,
         JObj [(''content'',
            JStr (''**Sources:**'' @ [nl] @ ''- `x`'' @ [nl] @ ''notes'' @ [nl] @
                  ''**Sources:**'' @ [nl] @ ''- `a`'' @ [nl] @ ''- `b`'' @ [nl]))]),
      (completionDoc,
         JObj [(''choices'', JArr [JObj [(''message'', JObj [(''content'',
            JStr (''Done.'' @ [nl] @ ''**Sources:**'' @ [nl] @ ''- `a`'' @ [nl] @ ''- `b`'' @ [nl]))])]])]),
      (mentionDoc, JObj [(''content'', JStr ''end with data: [DONE]'')]),
      (nullContentDoc,
         JObj [(''choices'', JArr [JObj [(''message'', JObj [(''content'', JNull)])]])])]"

section \<open>Properties of the string functions\<close>

lemma startsWith_iff: "startsWith s p \<longleftrightarrow> (\<exists>ss. s = p @ ss)"
  unfolding startsWith_def by (metis append_eq_conv_conj)



lemmas char_eval = char_of_def bit_Suc_0_iff



lemma lastIndexFrom_found:
  "i \<le> k \<Longrightarrow> startsWith (drop i s) sub \<Longrightarrow>
   (\<forall>j. i < j \<and> j \<le> k \<longrightarrow> \<not> startsWith (drop j s) sub) \<Longrightarrow>
   lastIndexFrom s sub k = int i"
proof (induction k)
  case 0
  then show ?case by simp
next
  case (Suc k)
  show ?case
  proof (cases "i = Suc k")
    case True
    then show ?thesis using Suc.prems by simp
  next
    case False
    then have "i \<le> k" using Suc.prems by simp
    moreover have "\<not> startsWith (drop (Suc k) s) sub" using Suc.prems False by simp
    ultimately show ?thesis using Suc by simp
  qed
qed

lemma lastIndexFrom_upper:
  "(\<forall>j. m < j \<and> j \<le> k \<longrightarrow> \<not> startsWith (drop j s) sub) \<Longrightarrow> lastIndexFrom s sub k \<le> int m"
proof (induction k)
  case 0
  then show ?case by simp
next
  case (Suc k)
  show ?case
  proof (cases "m < Suc k")
    case True
    then have "\<not> startsWith (drop (Suc k) s) sub" using Suc.prems by simp
    then show ?thesis using Suc by simp
  next
    case False
    have "lastIndexFrom s sub (Suc k) \<le> int (Suc k)" for k
      by (induction k) auto
    then show ?thesis using False by (smt (verit) not_less of_nat_le_iff order_trans)
  qed
qed

lemma startsWith_drop_length:
  "startsWith (drop j s) sub \<Longrightarrow> sub \<noteq> [] \<Longrightarrow> j + length sub \<le> length s"
proof -
  assume a: "startsWith (drop j s) sub" and n: "sub \<noteq> []"
  have "length (take (length sub) (drop j s)) = length sub" using a by (simp add: startsWith_def)
  then have "length sub \<le> length s - j" by simp
  moreover have "0 < length sub" using n by simp
  ultimately show ?thesis by arith
qed

lemma lastIndexOf_found:
  assumes "i \<le> k" "startsWith (drop i s) sub" "sub \<noteq> []"
    "\<forall>j. i < j \<and> j \<le> k \<longrightarrow> \<not> startsWith (drop j s) sub"
  shows "lastIndexOf s sub k = int i"
proof -
  have l: "i + length sub \<le> length s" using assms startsWith_drop_length by blast
  then have "i \<le> min k (length s - length sub)" using assms(1) by simp
  moreover have "\<forall>j. i < j \<and> j \<le> min k (length s - length sub) \<longrightarrow> \<not> startsWith (drop j s) sub"
    using assms(4) by simp
  ultimately have "lastIndexFrom s sub (min k (length s - length sub)) = int i"
    using assms(2) lastIndexFrom_found by blast
  then show ?thesis using l by (simp add: lastIndexOf_def)
qed

lemma lastIndexOf_upper:
  assumes "\<forall>j. m < j \<and> j \<le> k \<longrightarrow> \<not> startsWith (drop j s) sub"
  shows "lastIndexOf s sub k \<le> int m"
proof (cases "length s < length sub")
  case True
  then show ?thesis by (simp add: lastIndexOf_def)
next
  case False
  have "\<forall>j. m < j \<and> j \<le> min k (length s - length sub) \<longrightarrow> \<not> startsWith (drop j s) sub"
    using assms by simp
  then have "lastIndexFrom s sub (min k (length s - length sub)) \<le> int m"
    by (rule lastIndexFrom_upper)
  then show ?thesis using False by (simp add: lastIndexOf_def)
qed

text \<open>
  C7: the reply for a result without a status code. Content of at most 10000 characters is
  passed through. Longer content is cut at \<open>b\<close>, the last position up to 10000 where a
  paragraph break (two line feeds) starts, when \<open>b\<close> is past 7500, and otherwise at 10000
  with \<open>...\<close> appended; in both cases the note with the original length follows.
\<close>

theorem trimmed_reply:
  "statusCode r = None \<Longrightarrow>
   (length (content r) \<le> 10000 \<longrightarrow>
      lookup_codebase_context q (Some r) =
        ''Context for '' @ [dquote] @ q @ [dquote] @ '':'' @ [nl, nl] @ content r @
        sourcesSection (sources r)) \<and>
   (length (content r) > 10000 \<and> 7500 < b \<and> b \<le> 10000 \<and>
    startsWith (drop b (content r)) [nl, nl] \<and>
    (\<forall>j. b < j \<and> j \<le> 10000 \<longrightarrow> \<not> startsWith (drop j (content r)) [nl, nl]) \<longrightarrow>
      lookup_codebase_context q (Some r) =
        ''Context for '' @ [dquote] @ q @ [dquote] @ '':'' @ [nl, nl] @ take b (content r) @
        [nl, nl] @ ''[Content trimmed for display. The original response was '' @
        showNat (length (content r)) @ '' characters long.]'' @ sourcesSection (sources r)) \<and>
   (length (content r) > 10000 \<and>
    (\<forall>j. 7500 < j \<and> j \<le> 10000 \<longrightarrow> \<not> startsWith (drop j (content r)) [nl, nl]) \<longrightarrow>
      lookup_codebase_context q (Some r) =
        ''Context for '' @ [dquote] @ q @ [dquote] @ '':'' @ [nl, nl] @
        take 10000 (content r) @ ''...'' @
        [nl, nl] @ ''[Content trimmed for display. The original response was '' @
        showNat (length (content r)) @ '' characters long.]'' @ sourcesSection (sources r))"
proof -
  assume st: "statusCode r = None"
  have reply: "lookup_codebase_context q (Some r) =
      ''Context for '' @ [dquote] @ q @ [dquote] @ '':'' @ [nl, nl] @
      trimmedContent (content r) @ sourcesSection (sources r)"
    using st by (simp add: lookup_codebase_context_def)
  have short: "trimmedContent (content r) = content r" if "length (content r) \<le> 10000"
    using that by (simp add: trimmedContent_def maxResponseLength_def)
  have brk: "trimmedContent (content r) = take b (content r) @ trimNote (content r)"
    if "length (content r) > 10000" "7500 < b" "b \<le> 10000"
      "startsWith (drop b (content r)) [nl, nl]"
      "\<forall>j. b < j \<and> j \<le> 10000 \<longrightarrow> \<not> startsWith (drop j (content r)) [nl, nl]"
  proof -
    have "lastIndexOf (content r) [nl, nl] 10000 = int b"
      using that by (intro lastIndexOf_found) auto
    then show ?thesis using that by (simp add: trimmedContent_def maxResponseLength_def)
  qed
  have hard: "trimmedContent (content r) = take 10000 (content r) @ ''...'' @ trimNote (content r)"
    if "length (content r) > 10000"
      "\<forall>j. 7500 < j \<and> j \<le> 10000 \<longrightarrow> \<not> startsWith (drop j (content r)) [nl, nl]"
  proof -
    have "lastIndexOf (content r) [nl, nl] 10000 \<le> int 7500"
      using that(2) by (rule lastIndexOf_upper)
    then show ?thesis using that by (simp add: trimmedContent_def maxResponseLength_def)
  qed
  show ?thesis
    using reply short brk hard by (simp add: trimNote_def)
qed


lemma showNat_12000: "showNat 12000 = ''12000''"
  by (simp add: showNat.simps digitChar_def char_eval)

lemma replicate_not_blank: "c \<noteq> nl \<Longrightarrow> \<not> startsWith (drop j (replicate n c)) [nl, nl]"
proof
  assume c: "c \<noteq> nl" and a: "startsWith (drop j (replicate n c)) [nl, nl]"
  have "nl \<in> set [nl, nl]" by simp
  then have "nl \<in> set (take (length [nl, nl]) (drop j (replicate n c)))"
    using a unfolding startsWith_def by metis
  then have "nl \<in> set (drop j (replicate n c))" by (rule in_set_takeD)
  then have "nl \<in> set (replicate n c)" by (rule in_set_dropD)
  then show False using c by simp
qed

lemma break_then_replicate:
  assumes "length xs = b" "c \<noteq> nl" "b < j"
  shows "\<not> startsWith (drop j (xs @ [nl, nl] @ replicate m c)) [nl, nl]"
proof (cases "j = Suc b")
  case True
  then have "drop j (xs @ [nl, nl] @ replicate m c) = nl # replicate m c"
    using assms(1) by simp
  then show ?thesis using assms(2) by (cases m) (simp_all add: startsWith_def)
next
  case False
  then have "drop j (xs @ [nl, nl] @ replicate m c) = drop (j - b - 2) (replicate m c)"
    using assms(1,3) by (simp add: drop_Cons')
  then show ?thesis using replicate_not_blank [OF assms(2)] by simp
qed

theorem trimmed_reply_witness:
  "lookup_codebase_context ''q''
     (Some \<lparr>content = ''short answer'', sources = None, statusCode = None\<rparr>) =
     ''Context for '' @ [dquote] @ ''q'' @ [dquote] @ '':'' @ [nl, nl] @ ''short answer'' \<and>
   lookup_codebase_context ''q''
     (Some \<lparr>content = replicate 9500 (CHR ''a'') @ [nl, nl] @ replicate 2498 (CHR ''b''),
            sources = None, statusCode = None\<rparr>) =
     ''Context for '' @ [dquote] @ ''q'' @ [dquote] @ '':'' @ [nl, nl] @
     replicate 9500 (CHR ''a'') @ [nl, nl] @
     ''[Content trimmed for display. The original response was 12000 characters long.]'' \<and>
   lookup_codebase_context ''q''
     (Some \<lparr>content = replicate 12000 (CHR ''a''), sources = None, statusCode = None\<rparr>) =
     ''Context for '' @ [dquote] @ ''q'' @ [dquote] @ '':'' @ [nl, nl] @
     replicate 10000 (CHR ''a'') @ ''...'' @ [nl, nl] @
     ''[Content trimmed for display. The original response was 12000 characters long.]''"
proof -
  define xs where "xs = replicate 9500 (CHR ''a'')"
  define ys where "ys = replicate 2498 (CHR ''b'')"
  define zs where "zs = replicate 12000 (CHR ''a'')"
  have lx: "length xs = 9500" and ly: "length ys = 2498" and lz: "length zs = 12000"
    by (simp_all add: xs_def ys_def zs_def)
  have tz: "take 10000 zs = replicate 10000 (CHR ''a'')"
    unfolding zs_def by (simp add: take_replicate)
  have s2: "startsWith (drop 9500 (xs @ [nl, nl] @ ys)) [nl, nl]"
    using lx by (simp add: startsWith_def)
  have n2: "\<forall>j. 9500 < j \<and> j \<le> 10000 \<longrightarrow> \<not> startsWith (drop j (xs @ [nl, nl] @ ys)) [nl, nl]"
    unfolding ys_def using break_then_replicate [OF lx] by simp
  have n3: "\<forall>j. 7500 < j \<and> j \<le> 10000 \<longrightarrow> \<not> startsWith (drop j zs) [nl, nl]"
    unfolding zs_def using replicate_not_blank by simp
  note t1 = trimmed_reply [of "\<lparr>content = ''short answer'', sources = None, statusCode = None\<rparr>" "''q''" 0]
  note t2 = trimmed_reply [of "\<lparr>content = xs @ [nl, nl] @ ys, sources = None, statusCode = None\<rparr>" "''q''" 9500]
  note t3 = trimmed_reply [of "\<lparr>content = zs, sources = None, statusCode = None\<rparr>" "''q''" 0]
  have r1: "lookup_codebase_context ''q''
     (Some \<lparr>content = ''short answer'', sources = None, statusCode = None\<rparr>) =
     ''Context for '' @ [dquote] @ ''q'' @ [dquote] @ '':'' @ [nl, nl] @ ''short answer''"
    using t1 by (simp add: sourcesSection_def)
  have r2: "lookup_codebase_context ''q'' (Some \<lparr>content = xs @ [nl, nl] @ ys, sources = None, statusCode = None\<rparr>) =
     ''Context for '' @ [dquote] @ ''q'' @ [dquote] @ '':'' @ [nl, nl] @
     xs @ [nl, nl] @
     ''[Content trimmed for display. The original response was 12000 characters long.]''"
    using t2 s2 n2 lx ly by (simp add: sourcesSection_def showNat_12000)
  have r3: "lookup_codebase_context ''q'' (Some \<lparr>content = zs, sources = None, statusCode = None\<rparr>) =
     ''Context for '' @ [dquote] @ ''q'' @ [dquote] @ '':'' @ [nl, nl] @
     take 10000 zs @ ''...'' @ [nl, nl] @
     ''[Content trimmed for display. The original response was 12000 characters long.]''"
    using t3 n3 lz by (simp add: sourcesSection_def showNat_12000)
  show ?thesis using r1 r2 r3 unfolding tz unfolding xs_def ys_def zs_def by blast
qed

section \<open>Properties of the retry loop\<close>

lemma fetchLoop_return:
  "retryCount s < maxRetries \<or> timeoutRetryCount s < maxTimeoutRetries \<Longrightarrow>
   tryBlock P (net (calls s) (niaRequest query apiKey)) = Inr res \<Longrightarrow>
   fetchLoop (Suc fuel) P net query apiKey s = Some (Some res, s\<lparr>calls := calls s + 1\<rparr>)"
  by simp

lemma processResponse_not_ok:
  "\<not> ok r \<Longrightarrow>
   processResponse P r = Inr \<lparr>content = [], sources = None, statusCode = Some (status r)\<rparr>"
  by (simp add: processResponse_def)

text \<open>
  C3: a response with a status outside 200-299 makes the loop return at once the result
  with empty content and that status: the retry counters and the backoff log are left as
  they were (zero at the first call, where only the call count moves to 1). For 401 and
  403 the handler then replies with the fixed authentication message.
\<close>

theorem non_success_no_retry:
  assumes "retryCount s < maxRetries \<or> timeoutRetryCount s < maxTimeoutRetries"
    and "net (calls s) (niaRequest query apiKey) = Responded r"
    and "\<not> ok r"
  shows "(\<exists>s'. fetchLoop (Suc fuel) P net query apiKey s =
             Some (Some \<lparr>content = [], sources = None, statusCode = Some (status r)\<rparr>, s') \<and>
           retryCount s' = retryCount s \<and> timeoutRetryCount s' = timeoutRetryCount s \<and>
           waits s' = waits s \<and> calls s' = calls s + 1) \<and>
         (s = initialState \<longrightarrow>
            fetchContextFromNia (Suc fuel) P net query apiKey =
              Some (Some \<lparr>content = [], sources = None, statusCode = Some (status r)\<rparr>,
                    \<lparr>retryCount = 0, timeoutRetryCount = 0, lastError = None, waits = [],
                     calls = 1\<rparr>)) \<and>
         (status r = 401 \<or> status r = 403 \<longrightarrow>
            lookup_codebase_context query
              (Some \<lparr>content = [], sources = None, statusCode = Some (status r)\<rparr>) =
            ''Authentication error. Please make sure you'' @ [CHR 0x27] @
            ''re using a valid API key from your Nia account.'')"
proof -
  have "tryBlock P (net (calls s) (niaRequest query apiKey)) =
          Inr \<lparr>content = [], sources = None, statusCode = Some (status r)\<rparr>"
    using assms(2,3) by (simp add: tryBlock_def processResponse_not_ok)
  then have run: "fetchLoop (Suc fuel) P net query apiKey s =
      Some (Some \<lparr>content = [], sources = None, statusCode = Some (status r)\<rparr>,
            s\<lparr>calls := calls s + 1\<rparr>)"
    using assms(1) by (rule fetchLoop_return [rotated])
  then have a: "\<exists>s'. fetchLoop (Suc fuel) P net query apiKey s =
             Some (Some \<lparr>content = [], sources = None, statusCode = Some (status r)\<rparr>, s') \<and>
           retryCount s' = retryCount s \<and> timeoutRetryCount s' = timeoutRetryCount s \<and>
           waits s' = waits s \<and> calls s' = calls s + 1"
    by simp
  have b: "fetchContextFromNia (Suc fuel) P net query apiKey =
              Some (Some \<lparr>content = [], sources = None, statusCode = Some (status r)\<rparr>,
                    \<lparr>retryCount = 0, timeoutRetryCount = 0, lastError = None, waits = [],
                     calls = 1\<rparr>)"
    if "s = initialState"
    using run that unfolding fetchContextFromNia_def by (simp add: initialState_def)
  have c: "lookup_codebase_context query
           (Some \<lparr>content = [], sources = None, statusCode = Some (status r)\<rparr>) =
         ''Authentication error. Please make sure you'' @ [CHR 0x27] @
         ''re using a valid API key from your Nia account.''"
    if "status r = 401 \<or> status r = 403"
    using that by (auto simp: lookup_codebase_context_def authReply_def)
  show ?thesis using a b c by blast
qed

theorem non_success_no_retry_witness:
  "fetchContextFromNia 1 (\<lambda>t. None)
     (\<lambda>k req. Responded \<lparr>status = 401, contentType = None, bodyText = Some (Inr ''Unauthorized'')\<rparr>)
     ''where is the parser'' ''key'' =
     Some (Some \<lparr>content = [], sources = None, statusCode = Some 401\<rparr>,
           \<lparr>retryCount = 0, timeoutRetryCount = 0, lastError = None, waits = [], calls = 1\<rparr>) \<and>
   lookup_codebase_context ''where is the parser''
     (Some \<lparr>content = [], sources = None, statusCode = Some 401\<rparr>) =
     ''Authentication error. Please make sure you'' @ [CHR 0x27] @
     ''re using a valid API key from your Nia account.''"
proof -
  let ?r = "\<lparr>status = 401, contentType = None, bodyText = Some (Inr ''Unauthorized'')\<rparr>"
  let ?net = "\<lambda>(k::nat) (req::httpRequest). Responded ?r"
  have h1: "retryCount initialState < maxRetries \<or> timeoutRetryCount initialState < maxTimeoutRetries"
    by (simp add: initialState_def maxRetries_def)
  have h2: "?net (calls initialState) (niaRequest ''where is the parser'' ''key'') = Responded ?r"
    by simp
  have h3: "\<not> ok ?r"
    by (simp add: ok_def)
  show ?thesis
    using non_success_no_retry [of initialState ?net "''where is the parser''" "''key''" ?r 0 "\<lambda>t. None", OF h1 h2 h3]
    by simp
qed

lemma afterLoop_exhausted:
  "maxTimeoutRetries \<le> timeoutRetryCount s \<Longrightarrow> afterLoop s = timedOut (timeoutRetryCount s)"
  by (simp add: afterLoop_def timedOut_def)

lemma jsonResult_shape:
  "jsonResult d = Inr x \<Longrightarrow> statusCode x = None \<or> x = invalidFormat"
  by (auto simp: jsonResult_def split: if_splits option.splits json.splits)

lemma processResponse_shape:
  assumes "processResponse P r = Inr res"
  shows "statusCode res = None \<or>
         (\<exists>c. statusCode res = Some c \<and> \<not> (200 \<le> c \<and> c \<le> 299) \<and> content res = []) \<or>
         res = invalidFormat"
proof (cases "ok r")
  case False
  then show ?thesis using assms by (auto simp: processResponse_not_ok ok_def)
next
  case True
  have "statusCode res = None \<or> res = invalidFormat"
    using assms True
    by (auto simp: processResponse_def sseResult_def Let_def
        split: if_splits sum.splits prod.splits dest: jsonResult_shape)
  then show ?thesis by blast
qed

lemma catchBlock_break:
  "catchBlock e s = (s', True) \<Longrightarrow> maxTimeoutRetries \<le> timeoutRetryCount s'"
  by (auto simp: catchBlock_def Let_def split: if_splits)

lemma fetchLoop_shape:
  "fetchLoop fuel P net query apiKey s = Some (res, s') \<Longrightarrow>
   \<exists>r. res = Some r \<and>
     (statusCode r = None \<or>
      (\<exists>c. statusCode r = Some c \<and> \<not> (200 \<le> c \<and> c \<le> 299) \<and> content r = []) \<or>
      r = invalidFormat \<or>
      (r = timedOut (timeoutRetryCount s') \<and> maxTimeoutRetries \<le> timeoutRetryCount s'))"
proof (induction fuel arbitrary: s)
  case 0
  then show ?case by simp
next
  case (Suc fuel)
  show ?case
  proof (cases "retryCount s < maxRetries \<or> timeoutRetryCount s < maxTimeoutRetries")
    case False
    then have "res = Some (afterLoop s)" and "s' = s" and "maxTimeoutRetries \<le> timeoutRetryCount s"
      using Suc.prems by auto
    then show ?thesis using afterLoop_exhausted by auto
  next
    case True
    show ?thesis
    proof (cases "tryBlock P (net (calls s) (niaRequest query apiKey))")
      case (Inr x)
      then have "res = Some x" using Suc.prems True by auto
      moreover have "statusCode x = None \<or>
         (\<exists>c. statusCode x = Some c \<and> \<not> (200 \<le> c \<and> c \<le> 299) \<and> content x = []) \<or>
         x = invalidFormat"
        using Inr processResponse_shape by (auto simp: tryBlock_def split: attempt.splits)
      ultimately show ?thesis by blast
    next
      case (Inl e)
      obtain s1 b where c: "catchBlock e (s\<lparr>calls := calls s + 1\<rparr>) = (s1, b)"
        by (cases "catchBlock e (s\<lparr>calls := calls s + 1\<rparr>)") auto
      show ?thesis
      proof (cases b)
        case True
        then have "res = Some (afterLoop s1)" and "s' = s1"
          using Suc.prems \<open>retryCount s < maxRetries \<or> timeoutRetryCount s < maxTimeoutRetries\<close> Inl c
          by auto
        moreover have "maxTimeoutRetries \<le> timeoutRetryCount s1"
          using c True catchBlock_break [of e _ s1] by simp
        ultimately show ?thesis using afterLoop_exhausted by auto
      next
        case False
        then have "fetchLoop fuel P net query apiKey s1 = Some (res, s')"
          using Suc.prems \<open>retryCount s < maxRetries \<or> timeoutRetryCount s < maxTimeoutRetries\<close> Inl c
          by auto
        then show ?thesis by (rule Suc.IH)
      qed
    qed
  qed
qed


lemmas doc_defs = escNl_def deltaDoc_def messageDoc_def rawDoc_def sourcesDoc_def
  twoSectionsDoc_def completionDoc_def mentionDoc_def nullContentDoc_def

lemmas sse_eval = sseResult_def trim_def isWhiteSpace_def startsWith_def sampleParse_def
  doc_defs appendEvent_def plusAssign_def deltaContent_def messageContent_def rawContent_def

text \<open>
  C2, as stated, fails: a 2xx response whose JSON body has no \<open>choices\<close> is answered with
  both a status code (500) and a non-empty content.
\<close>

theorem status_with_synthesized_content:
  "fetchContextFromNia 1 sampleParse
     (\<lambda>k req. Responded \<lparr>status = 200, contentType = Some ''application/json'',
                          bodyText = Some (Inr ''{}'')\<rparr>)
     ''list the routes'' ''key'' =
     Some (Some \<lparr>content = ''Error: Invalid response format from API'', sources = None,
                 statusCode = Some 500\<rparr>,
           \<lparr>retryCount = 0, timeoutRetryCount = 0, lastError = None, waits = [], calls = 1\<rparr>)"
  by (simp add: fetchContextFromNia_def initialState_def maxRetries_def tryBlock_def
      processResponse_def ok_def isEventStream_def startsWith_def response_json_def
      sampleParse_def doc_defs jsonResult_def invalidFormat_def)

text \<open>
  C2, amended: a result the engine returns has no status code, or it has the status of a
  non-2xx response with empty content, or status 500 with the invalid-format message, or
  status 408 with the timed-out message. A status code never comes with any other
  content.
\<close>

theorem result_shapes:
  assumes "fetchContextFromNia fuel P net query apiKey = Some (Some r, s')"
  shows "statusCode r = None \<or>
         (\<exists>c. statusCode r = Some c \<and> \<not> (200 \<le> c \<and> c \<le> 299) \<and> content r = []) \<or>
         (statusCode r = Some 500 \<and> content r = ''Error: Invalid response format from API'') \<or>
         (statusCode r = Some 408 \<and>
          content r = ''Request timed out after '' @ showNat (timeoutRetryCount s') @
            '' attempts. The Nia API might be experiencing high load or the query is too complex.'')"
proof -
  have "statusCode r = None \<or>
      (\<exists>c. statusCode r = Some c \<and> \<not> (200 \<le> c \<and> c \<le> 299) \<and> content r = []) \<or>
      r = invalidFormat \<or>
      (r = timedOut (timeoutRetryCount s') \<and> maxTimeoutRetries \<le> timeoutRetryCount s')"
    using fetchLoop_shape [OF assms [unfolded fetchContextFromNia_def]] by simp
  then show ?thesis
    by (auto simp: invalidFormat_def timedOut_def)
qed

theorem result_shapes_witness:
  "fetchContextFromNia 9 (\<lambda>t. None)
     (\<lambda>k req. if k < 3
        then Rejected \<lparr>error_name = ''TypeError'', error_message = ''fetch failed''\<rparr>
        else Rejected \<lparr>error_name = ''AbortError'', error_message = ''This operation was aborted''\<rparr>)
     ''list the routes'' ''key'' =
     Some (Some (timedOut 5),
           \<lparr>retryCount = 3, timeoutRetryCount = 5,
            lastError = Some \<lparr>error_name = ''TypeError'', error_message = ''fetch failed''\<rparr>,
            waits = [2000, 4000, 1000, 2000, 3000, 4000], calls = 8\<rparr>) \<and>
   statusCode (timedOut 5) = Some 408 \<and>
   content (timedOut 5) =
     ''Request timed out after 5 attempts. The Nia API might be experiencing high load or the query is too complex.''"
proof -
  let ?net = "\<lambda>(k::nat) (req::httpRequest). if k < 3
        then Rejected \<lparr>error_name = ''TypeError'', error_message = ''fetch failed''\<rparr>
        else Rejected \<lparr>error_name = ''AbortError'', error_message = ''This operation was aborted''\<rparr>"
  let ?s = "\<lparr>retryCount = 3, timeoutRetryCount = 5,
            lastError = Some \<lparr>error_name = ''TypeError'', error_message = ''fetch failed''\<rparr>,
            waits = [2000, 4000, 1000, 2000, 3000, 4000], calls = 8\<rparr>"
  have five: "showNat 5 = ''5''"
    by (simp add: showNat.simps digitChar_def char_eval)
  have five': "showNat (Suc (Suc (Suc (Suc (Suc 0))))) = ''5''"
    using five by (simp add: eval_nat_numeral)
  have t1: "\<not> isTimeout \<lparr>error_name = ''TypeError'', error_message = ''fetch failed''\<rparr>"
    by (simp add: isTimeout_def startsWith_def)
  have t2: "isTimeout \<lparr>error_name = ''AbortError'', error_message = ''This operation was aborted''\<rparr>"
    by (simp add: isTimeout_def)
  have nine: "(9::nat) = Suc (Suc (Suc (Suc (Suc (Suc (Suc (Suc (Suc 0))))))))"
    by simp
  have run: "fetchContextFromNia 9 (\<lambda>t. None) ?net ''list the routes'' ''key'' =
     Some (Some (timedOut 5), ?s)"
    unfolding nine
    by (simp add: fetchContextFromNia_def initialState_def maxRetries_def maxTimeoutRetries_def
        tryBlock_def catchBlock_def t1 t2 afterLoop_def timedOut_def five five' Let_def)
  have shape: "statusCode (timedOut 5) = None \<or>
         (\<exists>c. statusCode (timedOut 5) = Some c \<and> \<not> (200 \<le> c \<and> c \<le> 299) \<and>
              content (timedOut 5) = []) \<or>
         (statusCode (timedOut 5) = Some 500 \<and>
          content (timedOut 5) = ''Error: Invalid response format from API'') \<or>
         (statusCode (timedOut 5) = Some 408 \<and>
          content (timedOut 5) = ''Request timed out after '' @ showNat (timeoutRetryCount ?s) @
            '' attempts. The Nia API might be experiencing high load or the query is too complex.'')"
    by (rule result_shapes [OF run])
  then have "statusCode (timedOut 5) = Some 408 \<and>
      content (timedOut 5) =
        ''Request timed out after 5 attempts. The Nia API might be experiencing high load or the query is too complex.''"
    by (simp add: timedOut_def five)
  then show ?thesis using run by simp
qed

lemma reply_not_failed: "lookup_codebase_context q (Some r) \<noteq> failedReply"
proof (cases "statusCode r = Some 403 \<or> statusCode r = Some 401")
  case True
  then show ?thesis by (auto simp: lookup_codebase_context_def authReply_def failedReply_def)
next
  case False
  show ?thesis
  proof (cases "statusCode r = Some 402")
    case True
    then show ?thesis by (simp add: lookup_codebase_context_def quotaReply_def failedReply_def)
  next
    case n402: False
    show ?thesis
    proof (cases "statusCode r")
      case None
      then show ?thesis by (simp add: lookup_codebase_context_def failedReply_def)
    next
      case (Some c)
      then show ?thesis using False n402
        by (cases c) (simp_all add: lookup_codebase_context_def failedReply_def)
    qed
  qed
qed

text \<open>
  C10: whatever the engine returns is an object, never \<open>null\<close>, and the handler's reply
  for it is never the text of its \<open>null\<close> branch.
\<close>

theorem never_null:
  "fetchContextFromNia fuel P net query apiKey = Some (res, s') \<Longrightarrow>
   res \<noteq> None \<and> lookup_codebase_context q res \<noteq> ''Failed to retrieve context from Nia API''"
proof -
  assume a: "fetchContextFromNia fuel P net query apiKey = Some (res, s')"
  obtain r where "res = Some r"
    using fetchLoop_shape [OF a [unfolded fetchContextFromNia_def]] by blast
  then show ?thesis using reply_not_failed [of q r] by (simp add: failedReply_def)
qed

theorem never_null_witness:
  "fetchContextFromNia 1 (\<lambda>t. None)
     (\<lambda>k req. Responded \<lparr>status = 404, contentType = None, bodyText = Some (Inr ''Not Found'')\<rparr>)
     ''list the routes'' ''key'' =
     Some (Some \<lparr>content = [], sources = None, statusCode = Some 404\<rparr>,
           \<lparr>retryCount = 0, timeoutRetryCount = 0, lastError = None, waits = [], calls = 1\<rparr>) \<and>
   lookup_codebase_context ''list the routes''
     (Some \<lparr>content = [], sources = None, statusCode = Some 404\<rparr>) \<noteq>
     ''Failed to retrieve context from Nia API''"
proof -
  let ?net = "\<lambda>(k::nat) (req::httpRequest).
      Responded \<lparr>status = 404, contentType = None, bodyText = Some (Inr ''Not Found'')\<rparr>"
  have run: "fetchContextFromNia 1 (\<lambda>t. None) ?net ''list the routes'' ''key'' =
     Some (Some \<lparr>content = [], sources = None, statusCode = Some 404\<rparr>,
           \<lparr>retryCount = 0, timeoutRetryCount = 0, lastError = None, waits = [], calls = 1\<rparr>)"
    by (simp add: fetchContextFromNia_def initialState_def maxRetries_def tryBlock_def
      processResponse_def ok_def)
  show ?thesis using never_null [OF run, of "''list the routes''"] run by blast
qed

lemma timeouts_never_return:
  assumes "\<And>k. \<exists>e. net k (niaRequest query apiKey) = Rejected e \<and> isTimeout e"
  shows "retryCount s < maxRetries \<Longrightarrow> fetchLoop fuel P net query apiKey s = None"
proof (induction fuel arbitrary: s)
  case 0
  then show ?case by simp
next
  case (Suc fuel)
  obtain e where e: "net (calls s) (niaRequest query apiKey) = Rejected e" and t: "isTimeout e"
    using assms by blast
  obtain s1 b where c: "catchBlock e (s\<lparr>calls := calls s + 1\<rparr>) = (s1, b)"
    by (cases "catchBlock e (s\<lparr>calls := calls s + 1\<rparr>)") auto
  have "retryCount s1 = retryCount s" and "\<not> b"
    using c t Suc.prems by (auto simp: catchBlock_def Let_def split: if_splits)
  then show ?case
    using Suc e c by (simp add: tryBlock_def)
qed

lemma failures_never_return:
  assumes "\<And>k. \<exists>e. tryBlock P (net k (niaRequest query apiKey)) = Inl e \<and> \<not> isTimeout e"
  shows "timeoutRetryCount s < maxTimeoutRetries \<Longrightarrow> fetchLoop fuel P net query apiKey s = None"
proof (induction fuel arbitrary: s)
  case 0
  then show ?case by simp
next
  case (Suc fuel)
  obtain e where e: "tryBlock P (net (calls s) (niaRequest query apiKey)) = Inl e"
    and t: "\<not> isTimeout e"
    using assms by blast
  obtain s1 b where c: "catchBlock e (s\<lparr>calls := calls s + 1\<rparr>) = (s1, b)"
    by (cases "catchBlock e (s\<lparr>calls := calls s + 1\<rparr>)") auto
  have "timeoutRetryCount s1 = timeoutRetryCount s" and "\<not> b"
    using c t Suc.prems by (auto simp: catchBlock_def Let_def split: if_splits)
  then show ?case
    using Suc e c by simp
qed

text \<open>
  C1: when every call of \<open>fetch\<close> is rejected with an \<open>AbortError\<close>, no amount of fuel
  lets the engine return: after the fifth timeout the \<open>break\<close> test fails because
  \<open>retryCount\<close> is still below \<open>maxRetries\<close>, and so does the test of the loop. When the
  seventh call is answered with status 404, that answer is returned with
  \<open>timeoutRetryCount\<close> 6: the backoffs 1000, 2000, 3000 and 4000 were slept, and the sixth
  and seventh calls were made with no wait.
\<close>

theorem all_timeouts_never_return:
  "fetchContextFromNia fuel P
     (\<lambda>k req. Rejected \<lparr>error_name = ''AbortError'', error_message = ''This operation was aborted''\<rparr>)
     query apiKey = None \<and>
   fetchContextFromNia 7 P
     (\<lambda>k req. if k < 6
        then Rejected \<lparr>error_name = ''AbortError'', error_message = ''This operation was aborted''\<rparr>
        else Responded \<lparr>status = 404, contentType = None, bodyText = Some (Inr ''Not Found'')\<rparr>)
     query apiKey =
     Some (Some \<lparr>content = [], sources = None, statusCode = Some 404\<rparr>,
           \<lparr>retryCount = 0, timeoutRetryCount = 6, lastError = None,
            waits = [1000, 2000, 3000, 4000], calls = 7\<rparr>)"
proof -
  have t2: "isTimeout \<lparr>error_name = ''AbortError'', error_message = ''This operation was aborted''\<rparr>"
    by (simp add: isTimeout_def)
  have a: "fetchContextFromNia fuel P
     (\<lambda>k req. Rejected \<lparr>error_name = ''AbortError'', error_message = ''This operation was aborted''\<rparr>)
     query apiKey = None"
    unfolding fetchContextFromNia_def
    by (rule timeouts_never_return) (simp_all add: t2 initialState_def maxRetries_def)
  have seven: "(7::nat) = Suc (Suc (Suc (Suc (Suc (Suc (Suc 0))))))"
    by simp
  have b: "fetchContextFromNia 7 P
     (\<lambda>k req. if k < 6
        then Rejected \<lparr>error_name = ''AbortError'', error_message = ''This operation was aborted''\<rparr>
        else Responded \<lparr>status = 404, contentType = None, bodyText = Some (Inr ''Not Found'')\<rparr>)
     query apiKey =
     Some (Some \<lparr>content = [], sources = None, statusCode = Some 404\<rparr>,
           \<lparr>retryCount = 0, timeoutRetryCount = 6, lastError = None,
            waits = [1000, 2000, 3000, 4000], calls = 7\<rparr>)"
    unfolding seven
    by (simp add: fetchContextFromNia_def initialState_def maxRetries_def maxTimeoutRetries_def
        tryBlock_def catchBlock_def t2 Let_def processResponse_def ok_def)
  show ?thesis using a b by blast
qed

lemma text_fallback_throws:
  assumes "ok r" and "\<not> isEventStream (contentType r)"
    and "bodyText r = Some (Inr t)" and "P t = None"
  shows "processResponse P r = Inl bodyUnusable"
  using assms by (simp add: processResponse_def response_json_def response_text_def)

lemma no_body_fallback:
  assumes "ok r" and "\<not> isEventStream (contentType r)" and "bodyText r = None" and "P [] = None"
  shows "processResponse P r = Inr \<lparr>content = [], sources = Some [], statusCode = None\<rparr>"
  using assms by (simp add: processResponse_def response_json_def response_text_def)

text \<open>
  C8: for a 2xx response that is not an event stream and whose body is not JSON,
  \<open>response.json()\<close> has consumed the body when it rejects, so \<open>response.text()\<close> in the
  handler of that error rejects as well; the error reaches the outer \<open>catch\<close> as a generic
  one, and with that response at every call the engine never returns.
\<close>

theorem text_fallback_never_returns:
  "processResponse sampleParse
     \<lparr>status = 200, contentType = Some ''text/plain'', bodyText = Some (Inr ''hello'')\<rparr> =
     Inl bodyUnusable \<and>
   fetchContextFromNia fuel sampleParse
     (\<lambda>k req. Responded \<lparr>status = 200, contentType = Some ''text/plain'', bodyText = Some (Inr ''hello'')\<rparr>)
     query apiKey = None"
proof -
  have p: "sampleParse ''hello'' = None"
    by (simp add: sampleParse_def doc_defs)
  have a: "processResponse sampleParse
     \<lparr>status = 200, contentType = Some ''text/plain'', bodyText = Some (Inr ''hello'')\<rparr> =
     Inl bodyUnusable"
    by (rule text_fallback_throws [where t = "''hello''"])
      (simp_all add: ok_def isEventStream_def startsWith_def p)
  have t: "\<not> isTimeout bodyUnusable"
    by (simp add: isTimeout_def bodyUnusable_def startsWith_def)
  have b: "fetchContextFromNia fuel sampleParse
     (\<lambda>k req. Responded \<lparr>status = 200, contentType = Some ''text/plain'', bodyText = Some (Inr ''hello'')\<rparr>)
     query apiKey = None"
    unfolding fetchContextFromNia_def
    by (rule failures_never_return) (simp_all add: tryBlock_def a t initialState_def maxTimeoutRetries_def)
  show ?thesis using a b by blast
qed

section \<open>Properties of the stream reconstruction\<close>













section \<open>Properties of the extraction of sources\<close>

lemma matchEntry_item:
  assumes "ident \<noteq> []" "backtick \<notin> set ident"
  shows "matchEntry (''- `'' @ ident @ ''`'' @ rest) = Some (ident, rest)"
proof -
  have a: "\<forall>x \<in> set ident. x \<noteq> backtick"
    using assms(2) by auto
  have t: "takeWhile (\<lambda>c. c \<noteq> backtick) (ident @ backtick # rest) = ident"
    using a by simp
  have d: "dropWhile (\<lambda>c. c \<noteq> backtick) (ident @ backtick # rest) = backtick # rest"
    using a by simp
  show ?thesis
    using assms(1) t d by (simp add: matchEntry_def startsWith_def)
qed

lemma matchItem_item:
  assumes "ident \<noteq> []" "backtick \<notin> set ident"
  shows "matchItem (sourceItem ident @ rest) = Some rest"
proof -
  have "matchEntry (sourceItem ident @ rest) = Some (ident, nl # rest)"
    using matchEntry_item [OF assms, of "nl # rest"] by (simp add: sourceItem_def)
  then show ?thesis by (simp add: matchItem_def startsWith_def)
qed

lemma matchItems_items:
  assumes "\<forall>i \<in> set ids. i \<noteq> [] \<and> backtick \<notin> set i" "matchItem rest = None"
  shows "matchItems (concat (map sourceItem ids) @ rest) = rest"
  using assms
proof (induction ids)
  case Nil
  then show ?case by (simp add: matchItems.simps)
next
  case (Cons i ids)
  have "matchItem (sourceItem i @ concat (map sourceItem ids) @ rest) =
          Some (concat (map sourceItem ids) @ rest)"
    using Cons.prems by (intro matchItem_item) auto
  then have "matchItems (concat (map sourceItem (i # ids)) @ rest) =
          matchItems (concat (map sourceItem ids) @ rest)"
    by (subst matchItems.simps) simp
  then show ?case using Cons by simp
qed

lemma matchEntry_nl: "matchEntry (nl # s) = None"
  by (simp add: matchEntry_def startsWith_def)

lemma sourceRegex_exec_items:
  assumes "\<forall>i \<in> set ids. i \<noteq> [] \<and> backtick \<notin> set i"
  shows "sourceRegex_exec (concat (map sourceItem ids)) = ids"
  using assms
proof (induction ids)
  case Nil
  then show ?case by (simp add: sourceRegex_exec.simps matchEntry_def startsWith_def)
next
  case (Cons i ids)
  let ?rest = "concat (map sourceItem ids)"
  have "matchEntry (concat (map sourceItem (i # ids))) = Some (i, nl # ?rest)"
    using matchEntry_item [of i "nl # ?rest"] Cons.prems by (simp add: sourceItem_def)
  then have "sourceRegex_exec (concat (map sourceItem (i # ids))) = i # sourceRegex_exec (nl # ?rest)"
    by (subst sourceRegex_exec.simps) simp
  also have "sourceRegex_exec (nl # ?rest) = sourceRegex_exec ?rest"
    by (subst sourceRegex_exec.simps) (simp add: matchEntry_nl)
  finally show ?case using Cons by simp
qed

lemma sourceMatch_here:
  assumes "ids \<noteq> []" "\<forall>i \<in> set ids. i \<noteq> [] \<and> backtick \<notin> set i" "matchItem rest = None"
  shows "sourceMatch (sourcesHeader @ concat (map sourceItem ids) @ rest) =
           Some (concat (map sourceItem ids))"
proof -
  let ?b = "concat (map sourceItem ids) @ rest"
  obtain i others where ids: "ids = i # others" using assms(1) by (cases ids) auto
  have m: "matchItem ?b \<noteq> None"
    using matchItem_item [of i "concat (map sourceItem others) @ rest"] assms(2) ids by simp
  have h: "sourcesHeader @ ?b = CHR ''*'' # (''*Sources:**'' @ [nl] @ ?b)"
    by (simp add: sourcesHeader_def)
  have d: "drop 13 (sourcesHeader @ ?b) = ?b"
    by (simp add: sourcesHeader_def)
  have s: "startsWith (sourcesHeader @ ?b) sourcesHeader"
    by (simp add: startsWith_def)
  have "sourceMatch (sourcesHeader @ ?b) =
      Some (take (length ?b - length (matchItems ?b)) ?b)"
    using m d s by (subst h, subst sourceMatch.simps, fold h) simp
  then show ?thesis using matchItems_items [OF assms(2,3)] by simp
qed

lemma sourceMatch_skip:
  assumes "\<forall>p<length pre. \<not> sectionAt p (pre @ s)"
  shows "sourceMatch (pre @ s) = sourceMatch s"
  using assms unfolding sectionAt_def
proof (induction pre)
  case Nil
  then show ?case by simp
next
  case (Cons c pre)
  have "\<not> (startsWith (c # pre @ s) sourcesHeader \<and> matchItem (drop 13 (c # pre @ s)) \<noteq> None)"
    using Cons.prems [rule_format, of 0] by simp
  then have "sourceMatch ((c # pre) @ s) = sourceMatch (pre @ s)"
    by auto
  moreover have "\<forall>p<length pre. \<not> (startsWith (drop p (pre @ s)) sourcesHeader \<and>
             matchItem (drop (p + 13) (pre @ s)) \<noteq> None)"
  proof (intro allI impI)
    fix p assume "p < length pre"
    then have "Suc p < length (c # pre)" by simp
    then have n: "\<not> (startsWith (drop (Suc p) ((c # pre) @ s)) sourcesHeader \<and>
             matchItem (drop (Suc p + 13) ((c # pre) @ s)) \<noteq> None)"
      using Cons.prems by blast
    have e1: "drop (Suc p) ((c # pre) @ s) = drop p (pre @ s)" by simp
    have e2: "drop (Suc p + 13) ((c # pre) @ s) = drop (p + 13) (pre @ s)"
      by (simp only: add_Suc append_Cons drop_Suc_Cons)
    show "\<not> (startsWith (drop p (pre @ s)) sourcesHeader \<and>
             matchItem (drop (p + 13) (pre @ s)) \<noteq> None)"
      using n unfolding e1 e2 .
  qed
  ultimately show ?case using Cons.IH by simp
qed

lemma extractSources_section:
  assumes "ids \<noteq> []" "\<forall>i \<in> set ids. i \<noteq> [] \<and> backtick \<notin> set i" "matchItem rest = None"
    and "\<forall>p<length pre. \<not> sectionAt p (pre @ sourcesHeader @ concat (map sourceItem ids) @ rest)"
  shows "extractSources (pre @ sourcesHeader @ concat (map sourceItem ids) @ rest) = ids"
proof -
  have "sourceMatch (pre @ sourcesHeader @ concat (map sourceItem ids) @ rest) =
      Some (concat (map sourceItem ids))"
    using sourceMatch_skip [OF assms(4)] sourceMatch_here [OF assms(1,2,3)] by simp
  then show ?thesis
    using sourceRegex_exec_items [OF assms(2)] by (simp add: extractSources_def)
qed


text \<open>
  C5, as stated, fails: the content reconstructed from this stream ends in a Sources
  section with the entries \<open>a\<close> and \<open>b\<close>, and the sources returned are those of the
  section that comes first in the content, \<open>x\<close>.
\<close>

theorem first_sources_section_wins:
  "content (sseResult sampleParse (''data: '' @ twoSectionsDoc @ [nl, nl] @ ''data: [DONE]'' @ [nl, nl])) =
     ''**Sources:**'' @ [nl] @ ''- `x`'' @ [nl] @ ''notes'' @ [nl] @
     ''**Sources:**'' @ [nl] @ ''- `a`'' @ [nl] @ ''- `b`'' @ [nl] \<and>
   sources (sseResult sampleParse (''data: '' @ twoSectionsDoc @ [nl, nl] @ ''data: [DONE]'' @ [nl, nl])) =
     Some [''x''] \<and>
   sources (sseResult sampleParse (''data: '' @ twoSectionsDoc @ [nl, nl] @ ''data: [DONE]'' @ [nl, nl])) \<noteq>
     Some [''a'', ''b'']"
proof -
  let ?body = "''data: '' @ twoSectionsDoc @ [nl, nl] @ ''data: [DONE]'' @ [nl, nl]"
  let ?c = "''**Sources:**'' @ [nl] @ ''- `x`'' @ [nl] @ ''notes'' @ [nl] @
     ''**Sources:**'' @ [nl] @ ''- `a`'' @ [nl] @ ''- `b`'' @ [nl]"
  have c: "sseLoop sampleParse (split_blank ?body) [] = ?c"
    by (simp add: sse_eval)
  have e: "extractSources ?c = [''x'']"
    by (simp add: extractSources_def sourcesHeader_def startsWith_def matchItem_def
        matchEntry_def matchItems.simps sourceRegex_exec.simps)
  show ?thesis
    using c e by (simp add: sseResult_def Let_def)
qed


lemma matchItem_Nil: "matchItem [] = None"
  by (simp add: matchItem_def matchEntry_def startsWith_def)

lemma no_section_without_asterisk:
  assumes "CHR ''*'' \<notin> set pre" "p < length pre"
  shows "\<not> sectionAt p (pre @ s)"
proof
  assume "sectionAt p (pre @ s)"
  then have "startsWith (drop p (pre @ s)) sourcesHeader"
    by (simp add: sectionAt_def)
  then obtain ss where "drop p (pre @ s) = sourcesHeader @ ss"
    using startsWith_iff by blast
  moreover have "drop p (pre @ s) = pre ! p # drop (Suc p) (pre @ s)"
    using assms(2) by (metis Cons_nth_drop_Suc length_append nth_append trans_less_add1)
  ultimately have "pre ! p = CHR ''*''"
    by (simp add: sourcesHeader_def)
  then show False using assms by (metis nth_mem)
qed

text \<open>
  C5, amended: when the reconstructed content ends in a Sources section (the header,
  then one entry per identifier, each identifier non-empty and free of backticks) and no
  Sources section starts at an earlier position, the sources returned are the identifiers
  in their order, and the content returned is the whole text, section included.
\<close>

theorem sources_of_stream:
  assumes "sseLoop P (split_blank textResponse) [] =
             pre @ sourcesHeader @ concat (map sourceItem ids)"
    and "ids \<noteq> []"
    and "\<forall>i \<in> set ids. i \<noteq> [] \<and> backtick \<notin> set i"
    and "\<forall>p<length pre. \<not> sectionAt p (pre @ sourcesHeader @ concat (map sourceItem ids))"
  shows "sseResult P textResponse =
           \<lparr>content = pre @ sourcesHeader @ concat (map sourceItem ids), sources = Some ids,
            statusCode = None\<rparr>"
proof -
  have "extractSources (pre @ sourcesHeader @ concat (map sourceItem ids) @ []) = ids"
    using assms(2,3,4) by (intro extractSources_section) (simp_all add: matchItem_Nil)
  then show ?thesis using assms(1) by (simp add: sseResult_def Let_def)
qed

theorem sources_of_stream_witness:
  "sseResult sampleParse
     (''data: '' @ deltaDoc @ [nl, nl] @ ''data: '' @ messageDoc @ [nl, nl] @
      ''data: '' @ rawDoc @ [nl, nl] @ ''data: '' @ sourcesDoc @ [nl, nl] @
      ''data: [DONE]'' @ [nl, nl]) =
     \<lparr>content = (''Hello, world'' @ [nl, nl]) @ sourcesHeader @
                concat (map sourceItem [''src/a.ts'', ''src/b.ts'']),
      sources = Some [''src/a.ts'', ''src/b.ts''], statusCode = None\<rparr>"
proof -
  let ?body = "''data: '' @ deltaDoc @ [nl, nl] @ ''data: '' @ messageDoc @ [nl, nl] @
      ''data: '' @ rawDoc @ [nl, nl] @ ''data: '' @ sourcesDoc @ [nl, nl] @
      ''data: [DONE]'' @ [nl, nl]"
  let ?pre = "''Hello, world'' @ [nl, nl]"
  let ?ids = "[''src/a.ts'', ''src/b.ts'']"
  have h1: "sseLoop sampleParse (split_blank ?body) [] =
      ?pre @ sourcesHeader @ concat (map sourceItem ?ids)"
    by (simp add: sse_eval sourcesHeader_def sourceItem_def)
  have h2: "?ids \<noteq> []"
    by simp
  have h3: "\<forall>i \<in> set ?ids. i \<noteq> [] \<and> backtick \<notin> set i"
    by simp
  have h4: "\<forall>p<length ?pre. \<not> sectionAt p (?pre @ sourcesHeader @ concat (map sourceItem ?ids))"
    by (intro allI impI no_section_without_asterisk) simp_all
  show ?thesis
    by (rule sources_of_stream [OF h1 h2 h3 h4])
qed

lemma chain_truthy: "truthy v \<Longrightarrow> chain f (Some v) = f v"
  by (cases v) simp_all

text \<open>
  C9: this body parses and passes the shape test (\<open>choices[0].message\<close> is an object), but
  its \<open>content\<close> is \<open>null\<close>, so \<open>content.match\<close> throws; the handler of that error reads
  the consumed body again, which rejects, and with this response at every call the engine
  returns nothing, neither content nor sources.
\<close>

theorem null_content_never_returns:
  "sampleParse nullContentDoc =
     Some (JObj [(''choices'', JArr [JObj [(''message'', JObj [(''content'', JNull)])]])]) \<and>
   truthyOpt (chain (\<lambda>v. getProp v ''message'') (chain elem0 (getProp
     (JObj [(''choices'', JArr [JObj [(''message'', JObj [(''content'', JNull)])]])])
     ''choices''))) \<and>
   processResponse sampleParse
     \<lparr>status = 200, contentType = Some ''application/json'',
      bodyText = Some (Inr nullContentDoc)\<rparr> = Inl bodyUnusable \<and>
   (\<forall>fuel. fetchContextFromNia fuel sampleParse
      (\<lambda>k req. Responded \<lparr>status = 200, contentType = Some ''application/json'',
                           bodyText = Some (Inr nullContentDoc)\<rparr>)
      ''list the routes'' ''key'' = None)"
proof -
  let ?data = "JObj [(''choices'', JArr [JObj [(''message'', JObj [(''content'', JNull)])]])]"
  let ?r = "\<lparr>status = 200, contentType = Some ''application/json'',
      bodyText = Some (Inr nullContentDoc)\<rparr>"
  have p: "sampleParse nullContentDoc = Some ?data"
    by (simp add: sampleParse_def doc_defs)
  have j: "jsonResult ?data = Inl typeError"
    by (simp add: jsonResult_def)
  have e: "\<not> isEventStream (Some ''application/json'')"
    by (simp add: isEventStream_def startsWith_def)
  have a: "processResponse sampleParse ?r = Inl bodyUnusable"
    by (simp add: processResponse_def ok_def e response_json_def response_text_def p j)
  have t: "\<not> isTimeout bodyUnusable"
    by (simp add: isTimeout_def bodyUnusable_def startsWith_def)
  have b: "fetchContextFromNia fuel sampleParse (\<lambda>k req. Responded ?r)
      ''list the routes'' ''key'' = None" for fuel
    unfolding fetchContextFromNia_def
    by (rule failures_never_return)
      (simp_all add: tryBlock_def a t initialState_def maxTimeoutRetries_def)
  have m: "truthyOpt (chain (\<lambda>v. getProp v ''message'') (chain elem0 (getProp ?data ''choices'')))"
    by simp
  show ?thesis using p m a b by blast
qed

text \<open>
  The JSON path for a string content: a 2xx response that is not an event stream, whose
  body parses to a value with a truthy \<open>choices[0].message\<close> whose \<open>content\<close> is a string, is
  answered with that string unchanged and the sources extracted from it, by the function
  the stream branch applies to its own content; for content ending in a Sources section
  with none before it these are the identifiers of the section, in order.
\<close>

theorem json_path_sources:
  assumes "net 0 (niaRequest query apiKey) = Responded r"
    and "ok r" and "\<not> isEventStream (contentType r)"
    and "bodyText r = Some (Inr t)" and "P t = Some data"
    and "getProp data ''choices'' = Some ch" and "truthy ch"
    and "elem0 ch = Some choice" and "truthy choice"
    and "getProp choice ''message'' = Some msg" and "truthy msg"
    and "getProp msg ''content'' = Some (JStr c)"
  shows "fetchContextFromNia (Suc fuel) P net query apiKey =
           Some (Some \<lparr>content = c, sources = Some (extractSources c), statusCode = None\<rparr>,
                 \<lparr>retryCount = 0, timeoutRetryCount = 0, lastError = None, waits = [],
                  calls = 1\<rparr>) \<and>
         sources (sseResult P' textResponse) =
           Some (extractSources (content (sseResult P' textResponse))) \<and>
         (c = pre @ sourcesHeader @ concat (map sourceItem ids) \<and> ids \<noteq> [] \<and>
          (\<forall>i \<in> set ids. i \<noteq> [] \<and> backtick \<notin> set i) \<and>
          (\<forall>p<length pre. \<not> sectionAt p c) \<longrightarrow> extractSources c = ids)"
proof -
  have d: "truthy data"
    using assms(6) by (cases data) simp_all
  have j: "jsonResult data =
      Inr \<lparr>content = c, sources = Some (extractSources c), statusCode = None\<rparr>"
    using assms(6-12) d by (simp add: jsonResult_def chain_truthy)
  have "processResponse P r =
      Inr \<lparr>content = c, sources = Some (extractSources c), statusCode = None\<rparr>"
    using assms(2-5) j by (simp add: processResponse_def response_json_def)
  then have "tryBlock P (net (calls initialState) (niaRequest query apiKey)) =
      Inr \<lparr>content = c, sources = Some (extractSources c), statusCode = None\<rparr>"
    using assms(1) by (simp add: tryBlock_def initialState_def)
  then have a: "fetchContextFromNia (Suc fuel) P net query apiKey =
           Some (Some \<lparr>content = c, sources = Some (extractSources c), statusCode = None\<rparr>,
                 \<lparr>retryCount = 0, timeoutRetryCount = 0, lastError = None, waits = [],
                  calls = 1\<rparr>)"
    unfolding fetchContextFromNia_def
    by (subst fetchLoop_return) (simp_all add: initialState_def maxRetries_def)
  have b: "sources (sseResult P' textResponse) =
           Some (extractSources (content (sseResult P' textResponse)))"
    by (simp add: sseResult_def Let_def)
  have e: "extractSources c = ids"
    if "c = pre @ sourcesHeader @ concat (map sourceItem ids)" "ids \<noteq> []"
      "\<forall>i \<in> set ids. i \<noteq> [] \<and> backtick \<notin> set i" "\<forall>p<length pre. \<not> sectionAt p c"
    using extractSources_section [of ids "[]" pre] that by (simp add: matchItem_Nil)
  show ?thesis using a b e by blast
qed

theorem json_path_sources_witness:
  "fetchContextFromNia 1 sampleParse
     (\<lambda>k req. Responded \<lparr>status = 200, contentType = Some ''application/json'',
                          bodyText = Some (Inr completionDoc)\<rparr>)
     ''list the routes'' ''key'' =
     Some (Some \<lparr>content = (''Done.'' @ [nl]) @ sourcesHeader @ concat (map sourceItem [''a'', ''b'']),
                 sources = Some [''a'', ''b''], statusCode = None\<rparr>,
           \<lparr>retryCount = 0, timeoutRetryCount = 0, lastError = None, waits = [], calls = 1\<rparr>)"
proof -
  let ?r = "\<lparr>status = 200, contentType = Some ''application/json'', bodyText = Some (Inr completionDoc)\<rparr>"
  let ?net = "\<lambda>(k::nat) (req::httpRequest). Responded ?r"
  let ?c = "(''Done.'' @ [nl]) @ sourcesHeader @ concat (map sourceItem [''a'', ''b''])"
  let ?msg = "JObj [(''content'', JStr ?c)]"
  let ?choice = "JObj [(''message'', ?msg)]"
  let ?ch = "JArr [?choice]"
  let ?data = "JObj [(''choices'', ?ch)]"
  have p: "sampleParse completionDoc = Some ?data"
    by (simp add: sampleParse_def doc_defs sourcesHeader_def sourceItem_def)
  have h3: "\<not> isEventStream (Some ''application/json'')"
    by (simp add: isEventStream_def startsWith_def)
  have h13: "?c = (''Done.'' @ [nl]) @ sourcesHeader @ concat (map sourceItem [''a'', ''b'']) \<and>
      [''a'', ''b''] \<noteq> [] \<and> (\<forall>i \<in> set [''a'', ''b'']. i \<noteq> [] \<and> backtick \<notin> set i) \<and>
      (\<forall>p<length (''Done.'' @ [nl]). \<not> sectionAt p ?c)"
    using no_section_without_asterisk [of "''Done.'' @ [nl]"] by simp
  note t = json_path_sources [where net = ?net and r = ?r and P = sampleParse and t = completionDoc
      and data = ?data and ch = ?ch and choice = ?choice and msg = ?msg and c = ?c
      and query = "''list the routes''" and apiKey = "''key''" and fuel = 0
      and pre = "''Done.'' @ [nl]" and ids = "[''a'', ''b'']"
      and P' = sampleParse and textResponse = "[]"]
  have t': "fetchContextFromNia (Suc 0) sampleParse ?net ''list the routes'' ''key'' =
           Some (Some \<lparr>content = ?c, sources = Some (extractSources ?c), statusCode = None\<rparr>,
                 \<lparr>retryCount = 0, timeoutRetryCount = 0, lastError = None, waits = [],
                  calls = 1\<rparr>) \<and>
         sources (sseResult sampleParse []) =
           Some (extractSources (content (sseResult sampleParse []))) \<and>
         (?c = (''Done.'' @ [nl]) @ sourcesHeader @ concat (map sourceItem [''a'', ''b'']) \<and>
          [''a'', ''b''] \<noteq> [] \<and>
          (\<forall>i \<in> set [''a'', ''b'']. i \<noteq> [] \<and> backtick \<notin> set i) \<and>
          (\<forall>p<length (''Done.'' @ [nl]). \<not> sectionAt p ?c) \<longrightarrow> extractSources ?c = [''a'', ''b''])"
    by (rule t) (simp_all add: p h3 ok_def)
  have e: "extractSources ?c = [''a'', ''b'']"
    by (rule t' [THEN conjunct2, THEN conjunct2, THEN mp, OF h13])
  show ?thesis
    using t' [THEN conjunct1] unfolding e by simp
qed

end
